theory Spec2Isabelle
  imports Complex_Main "HOL-Library.AList" "HOL-Library.Multiset"
begin

section \<open>Python string and list primitives used by \<open>news_summarizer.py\<close>\<close>

text \<open>
  A Python \<open>str\<close> is modelled as a \<open>string\<close>, one \<open>char\<close> per code point; the model
  therefore covers texts whose code points lie below 256, and \<open>length\<close> is Python's
  \<open>len\<close>. \<open>is_space\<close> is \<open>str.isspace\<close> on that range (tab, line feed, vertical tab,
  form feed, carriage return, the four separators 28..31, space, NEL and the no-break
  space); \<open>str.split()\<close>, \<open>str.strip()\<close> and the pattern \<open>\s\<close> all use this class.
\<close>

definition is_space :: "char \<Rightarrow> bool" where
  "is_space c = ((of_char c :: nat) \<in> {9, 10, 11, 12, 13, 28, 29, 30, 31, 32, 133, 160})"

text \<open>\<open>s.split()\<close>: the maximal runs of non-whitespace characters, in order.\<close>

function split_ws :: "string \<Rightarrow> string list" where
  "split_ws s =
     (let s' = dropWhile is_space s
      in if s' = [] then []
         else takeWhile (\<lambda>c. \<not> is_space c) s' # split_ws (dropWhile (\<lambda>c. \<not> is_space c) s'))"
  by pat_completeness auto
termination
proof (relation "measure length", goal_cases)
  case 1
  show ?case by simp
next
  case (2 s s')
  then obtain c cs where s': "s' = c # cs" and c: "\<not> is_space c"
    by (metis dropWhile_eq_Cons_conv list.exhaust)
  have "length (dropWhile (\<lambda>c. \<not> is_space c) s') \<le> length cs"
    using s' c by (simp add: length_dropWhile_le)
  moreover have "length s' \<le> length s"
    using 2 by (simp add: length_dropWhile_le)
  ultimately show ?case using s' by simp
qed

declare split_ws.simps [simp del]

text \<open>\<open>re.sub(r'\s+', ' ', s)\<close>: every maximal whitespace run becomes one space.\<close>

function re_sub_ws :: "string \<Rightarrow> string" where
  "re_sub_ws [] = []"
| "re_sub_ws (c # cs) =
     (if is_space c then CHR '' '' # re_sub_ws (dropWhile is_space cs)
      else c # re_sub_ws cs)"
  by pat_completeness auto
termination
  by (relation "measure length") (auto simp: length_dropWhile_le less_Suc_eq_le)

text \<open>\<open>s.strip()\<close>\<close>

definition strip :: "string \<Rightarrow> string" where
  "strip s = rev (dropWhile is_space (rev (dropWhile is_space s)))"

text \<open>\<open>sep.join(xs)\<close>\<close>

fun join :: "string \<Rightarrow> string list \<Rightarrow> string" where
  "join sep [] = []"
| "join sep [x] = x"
| "join sep (x # y # ys) = x @ sep @ join sep (y # ys)"

text \<open>
  \<open>range(i, stop, step)\<close> for non-negative arguments. Python raises on \<open>step = 0\<close>; the
  only call site passes the constant 1000.
\<close>

function range_step :: "nat \<Rightarrow> nat \<Rightarrow> nat \<Rightarrow> nat list" where
  "range_step i stop step =
     (if 0 < step \<and> i < stop then i # range_step (i + step) stop step else [])"
  by pat_completeness auto
termination
  by (relation "measure (\<lambda>(i, stop, step). stop - i)") auto

declare range_step.simps [simp del]

text \<open>\<open>xs[i:j]\<close> for \<open>0 \<le> i \<le> j\<close>: clipped at the end of the list, never an error.\<close>

definition slice :: "'a list \<Rightarrow> nat \<Rightarrow> nat \<Rightarrow> 'a list" where
  "slice xs i j = take (j - i) (drop i xs)"

text \<open>\<open>xs[:n]\<close> for any integer \<open>n\<close>: a negative \<open>n\<close> counts from the end.\<close>

definition slice_to :: "'a list \<Rightarrow> int \<Rightarrow> 'a list" where
  "slice_to xs n =
     (if 0 \<le> n then take (nat n) xs else take (length xs - nat (- n)) xs)"

text \<open>\<open>xs[0]\<close> raises \<open>IndexError\<close> on an empty list.\<close>

datatype error =
    ConnectionError | Timeout | HTTPError nat | ParseError | ModelError | IndexError

definition first :: "'a list \<Rightarrow> error + 'a" where
  "first xs = (case xs of [] \<Rightarrow> Inl IndexError | x # _ \<Rightarrow> Inr x)"


section \<open>External collaborators\<close>

text \<open>
  The HTTP client, the XML and HTML parsers and the two model pipelines are black boxes.
  Each is a function of the environment that either raises (\<open>Inl\<close>) or returns (\<open>Inr\<close>);
  during one run a call with the same arguments has the same outcome.
\<close>

record response =
  status_code :: nat
  body :: string

text \<open>An \<open>ElementTree\<close> element: tag, text (\<open>None\<close> when absent) and children.\<close>

datatype element = Element (tag: string) (etext: "string option") (children: "element list")

record summary_candidate =
  summary_text :: string

text \<open>A sentiment candidate also carries a score, which the program never reads.\<close>

record sentiment_candidate =
  label :: string

record env =
  requests_get :: "string \<Rightarrow> error + response"
  ET_fromstring :: "string \<Rightarrow> error + element"
  html_paragraphs :: "string \<Rightarrow> error + string list"
  summarizer :: "string \<Rightarrow> int \<Rightarrow> int \<Rightarrow> error + summary_candidate list"
  sentiment_analyzer :: "string \<Rightarrow> error + sentiment_candidate list"

text \<open>
  \<open>html_paragraphs env html\<close> stands for
  \<open>[p.get_text() for p in BeautifulSoup(html, "html.parser").find_all("p")]\<close>.
\<close>

text \<open>\<open>response.raise_for_status()\<close>: client and server error codes raise.\<close>

definition raise_for_status :: "response \<Rightarrow> error + unit" where
  "raise_for_status r =
     (if 400 \<le> status_code r \<and> status_code r < 600 then Inl (HTTPError (status_code r))
      else Inr ())"


section \<open>Feed fetcher\<close>

definition get_news_sources :: "(string \<times> string) list" where
  "get_news_sources =
     [(''RSS Feed World'', ''https://moxie.foxnews.com/google-publisher/world.xml''),
      (''RSS Feed Politics'', ''https://moxie.foxnews.com/google-publisher/politics.xml''),
      (''RSS Feed Science'', ''https://moxie.foxnews.com/google-publisher/science.xml''),
      (''RSS Feed Tech'', ''https://moxie.foxnews.com/google-publisher/tech.xml'')]"

text \<open>\<open>root.findall('.//t')\<close>: every element below the root \<open>tree\<close> with tag \<open>t\<close>, in document order.\<close>

fun descendants :: "element \<Rightarrow> element list" where
  "descendants (Element t x cs) = concat (map (\<lambda>c. c # descendants c) cs)"

definition findall_descendants :: "element \<Rightarrow> string \<Rightarrow> element list" where
  "findall_descendants tree t = filter (\<lambda>e. tag e = t) (descendants tree)"

text \<open>\<open>item.find('t')\<close>: the first child with tag \<open>t\<close>, or \<open>None\<close>.\<close>

definition find_child :: "element \<Rightarrow> string \<Rightarrow> element option" where
  "find_child e t = List.find (\<lambda>c. tag c = t) (children e)"

text \<open>The loop over the items of a feed; \<open>article_urls\<close> is the list being appended to.\<close>

fun item_links :: "element list \<Rightarrow> string list \<Rightarrow> string list" where
  "item_links [] article_urls = article_urls"
| "item_links (item # items) article_urls =
     (case find_child item ''link'' of
        None \<Rightarrow> item_links items article_urls
      | Some link \<Rightarrow>
          (case etext link of
             None \<Rightarrow> item_links items article_urls
           | Some t \<Rightarrow>
               if t \<noteq> [] then item_links items (article_urls @ [t])
               else item_links items article_urls))"

text \<open>The body of the \<open>try\<close> block of \<open>_fetch_source\<close>.\<close>

definition fetch_source_try :: "env \<Rightarrow> string \<Rightarrow> error + string list" where
  "fetch_source_try env feed_url =
     (case requests_get env feed_url of
        Inl e \<Rightarrow> Inl e
      | Inr response \<Rightarrow>
          (case raise_for_status response of
             Inl e \<Rightarrow> Inl e
           | Inr _ \<Rightarrow>
               (case ET_fromstring env (body response) of
                  Inl e \<Rightarrow> Inl e
                | Inr tree \<Rightarrow> Inr (item_links (findall_descendants tree ''item'') []))))"

text \<open>\<open>_fetch_source\<close>: any exception is logged and turned into the empty list.\<close>

definition fetch_source :: "env \<Rightarrow> string \<Rightarrow> string \<Rightarrow> string list" where
  "fetch_source env source_name feed_url =
     (case fetch_source_try env feed_url of Inr article_urls \<Rightarrow> article_urls | Inl e \<Rightarrow> [])"

text \<open>
  \<open>future.result()\<close> for the task submitted for one source: the value \<open>_fetch_source\<close>
  returned. The body of \<open>_fetch_source\<close> catches every exception, so nothing is re-raised.
\<close>

definition future_result :: "env \<Rightarrow> string \<Rightarrow> string \<Rightarrow> error + string list" where
  "future_result env source feed_url = Inr (fetch_source env source feed_url)"

text \<open>
  The loop over \<open>as_completed\<close>. The order in which the pool completes the tasks is not
  determined by the program; it is the argument \<open>completed\<close>, a rearrangement of the
  configured \<open>(source, feed_url)\<close> pairs. The dictionary \<open>articles\<close> is an association list
  in insertion order, as \<open>articles.values()\<close> later iterates it. The pool is created with
  one worker per source, which needs at least one source; \<open>get_news_sources\<close> has four.
\<close>

fun collect_results ::
  "env \<Rightarrow> (string \<times> string) list \<Rightarrow> (string \<times> string list) list \<Rightarrow> (string \<times> string list) list"
where
  "collect_results env [] articles = articles"
| "collect_results env ((source, feed_url) # rest) articles =
     (case future_result env source feed_url of
        Inr source_articles \<Rightarrow>
          collect_results env rest (AList.update source source_articles articles)
      | Inl e \<Rightarrow> collect_results env rest articles)"

definition fetch_articles :: "env \<Rightarrow> (string \<times> string) list \<Rightarrow> (string \<times> string list) list" where
  "fetch_articles env completed = collect_results env completed []"


section \<open>Article extractor\<close>

text \<open>The body of the \<open>try\<close> block of \<open>_extract_article_text\<close>.\<close>

definition extract_article_text_try :: "env \<Rightarrow> string \<Rightarrow> error + string" where
  "extract_article_text_try env url =
     (case requests_get env url of
        Inl e \<Rightarrow> Inl e
      | Inr response \<Rightarrow>
          (case raise_for_status response of
             Inl e \<Rightarrow> Inl e
           | Inr _ \<Rightarrow>
               (case html_paragraphs env (body response) of
                  Inl e \<Rightarrow> Inl e
                | Inr ps \<Rightarrow>
                    (let paragraphs = filter (\<lambda>p. p \<noteq> []) ps;
                         article_text = join '' '' paragraphs
                     in Inr (strip (re_sub_ws article_text))))))"

definition extract_article_text :: "env \<Rightarrow> string \<Rightarrow> string" where
  "extract_article_text env url =
     (case extract_article_text_try env url of Inr article_text \<Rightarrow> article_text | Inl e \<Rightarrow> [])"


section \<open>Chunking, summarization, sentiment and the orchestrator\<close>

text \<open>\<open>[text[i:i+1000] for i in range(0, len(text), 1000)]\<close>\<close>

definition chunks :: "string \<Rightarrow> string list" where
  "chunks txt = map (\<lambda>i. slice txt i (i + 1000)) (range_step 0 (length txt) 1000)"

text \<open>
  \<open>max(5, int(input_len * 0.5))\<close> and \<open>max(3, int(input_len * 0.2))\<close>. \<open>input_len\<close> is a
  word count, hence non-negative, and \<open>int\<close> truncates. The double \<open>0.5\<close> is exact; the
  double \<open>0.2\<close> exceeds one fifth by less than one part in \<open>2^54\<close>, so the rounded product
  lies in the same unit interval as the exact fifth. Both truncations are therefore the
  integer quotients.
\<close>

definition max_len :: "int \<Rightarrow> int" where
  "max_len input_len = max 5 (input_len div 2)"

definition min_len :: "int \<Rightarrow> int" where
  "min_len input_len = max 3 (input_len div 5)"

record summary_result =
  summary :: string
  sentiment :: string

text \<open>
  The run state: the list \<open>results\<close> of \<open>process_articles\<close>, and a record of the calls the
  sequential loop makes to the extractor and to the two model pipelines, in order.
\<close>

datatype call =
    ExtractCall string
  | SummarizerCall string int int
  | SentimentCall string

record run_state =
  results :: "summary_result list"
  calls :: "call list"

definition init_state :: run_state where
  "init_state = \<lparr>results = [], calls = []\<rparr>"

definition record_call :: "call \<Rightarrow> run_state \<Rightarrow> run_state" where
  "record_call c st = st\<lparr>calls := calls st @ [c]\<rparr>"

text \<open>\<open>self.summarizer(chunk, max_length=.., min_length=.., do_sample=False)[0]['summary_text']\<close>\<close>

definition summarize_chunk :: "env \<Rightarrow> string \<Rightarrow> int \<Rightarrow> int \<Rightarrow> error + string" where
  "summarize_chunk env chunk mx mn =
     (case summarizer env chunk mx mn of
        Inl e \<Rightarrow> Inl e
      | Inr candidates \<Rightarrow>
          (case first candidates of Inl e \<Rightarrow> Inl e | Inr c \<Rightarrow> Inr (summary_text c)))"

text \<open>The loop over the chunks of one article; \<open>summaries\<close> is the list being appended to.\<close>

fun summarize_chunks ::
  "env \<Rightarrow> string list \<Rightarrow> string list \<Rightarrow> run_state \<Rightarrow> string list \<times> run_state"
where
  "summarize_chunks env [] summaries st = (summaries, st)"
| "summarize_chunks env (chunk # rest) summaries st =
     (let input_len = int (length (split_ws chunk));
          st' = record_call (SummarizerCall chunk (max_len input_len) (min_len input_len)) st
      in case summarize_chunk env chunk (max_len input_len) (min_len input_len) of
           Inr s \<Rightarrow> summarize_chunks env rest (summaries @ [s]) st'
         | Inl e \<Rightarrow> summarize_chunks env rest summaries st')"

text \<open>The guard \<open>not text or len(text.split()) < 50\<close>.\<close>

definition skip_article :: "string \<Rightarrow> bool" where
  "skip_article txt = (txt = [] \<or> length (split_ws txt) < 50)"

text \<open>\<open>self.sentiment_analyzer(final_summary[:500])[0]\<close>, then \<open>sentiment['label']\<close>.\<close>

definition sentiment_input :: "string \<Rightarrow> string" where
  "sentiment_input final_summary = slice_to final_summary 500"

definition classify :: "env \<Rightarrow> string \<Rightarrow> error + string" where
  "classify env s =
     (case sentiment_analyzer env s of
        Inl e \<Rightarrow> Inl e
      | Inr candidates \<Rightarrow>
          (case first candidates of Inl e \<Rightarrow> Inl e | Inr c \<Rightarrow> Inr (label c)))"

text \<open>
  The body of the loop over the links of one source: one article. An exception of the
  sentiment call reaches the outer handler, which logs it and goes on to the next link.
\<close>

definition process_article :: "env \<Rightarrow> string \<Rightarrow> run_state \<Rightarrow> run_state" where
  "process_article env url st =
     (let txt = extract_article_text env url;
          st1 = record_call (ExtractCall url) st
      in if skip_article txt then st1
         else
           (let (summaries, st2) = summarize_chunks env (chunks txt) [] st1
            in if summaries = [] then st2
               else
                 (let final_summary = join '' '' summaries;
                      st3 = record_call (SentimentCall (sentiment_input final_summary)) st2
                  in case classify env (sentiment_input final_summary) of
                       Inl e \<Rightarrow> st3
                     | Inr l \<Rightarrow>
                         st3\<lparr>results := results st3 @
                               [\<lparr>summary = final_summary, sentiment = l\<rparr>]\<rparr>)))"

fun process_urls :: "env \<Rightarrow> string list \<Rightarrow> run_state \<Rightarrow> run_state" where
  "process_urls env [] st = st"
| "process_urls env (url # rest) st = process_urls env rest (process_article env url st)"

fun process_sources :: "env \<Rightarrow> string list list \<Rightarrow> int \<Rightarrow> run_state \<Rightarrow> run_state" where
  "process_sources env [] max_articles st = st"
| "process_sources env (urls # rest) max_articles st =
     process_sources env rest max_articles (process_urls env (slice_to urls max_articles) st)"

definition process_articles :: "env \<Rightarrow> (string \<times> string) list \<Rightarrow> int \<Rightarrow> run_state" where
  "process_articles env completed max_articles =
     (let articles = fetch_articles env completed
      in process_sources env (map snd articles) max_articles init_state)"

text \<open>The default value of the parameter \<open>max_articles\<close>.\<close>

definition max_articles_default :: int where
  "max_articles_default = 5"

definition process_articles_default :: "env \<Rightarrow> (string \<times> string) list \<Rightarrow> run_state" where
  "process_articles_default env completed = process_articles env completed max_articles_default"


section \<open>Auxiliary notions for stating the properties\<close>

text \<open>The call the chunk loop makes for one chunk, and what that call yields.\<close>

definition chunk_call :: "string \<Rightarrow> call" where
  "chunk_call c =
     SummarizerCall c (max_len (int (length (split_ws c)))) (min_len (int (length (split_ws c))))"

definition chunk_outcome :: "env \<Rightarrow> string \<Rightarrow> error + string" where
  "chunk_outcome env c =
     summarize_chunk env c (max_len (int (length (split_ws c)))) (min_len (int (length (split_ws c))))"

definition chunk_summaries :: "env \<Rightarrow> string list \<Rightarrow> string list" where
  "chunk_summaries env cs =
     concat (map (\<lambda>c. case chunk_outcome env c of Inr s \<Rightarrow> [s] | Inl e \<Rightarrow> []) cs)"

text \<open>The links handed to the extractor, read off a record of calls.\<close>

fun extracted :: "call list \<Rightarrow> string list" where
  "extracted [] = []"
| "extracted (ExtractCall u # cs) = u # extracted cs"
| "extracted (SummarizerCall c mx mn # cs) = extracted cs"
| "extracted (SentimentCall t # cs) = extracted cs"

text \<open>The links of all sources that a run with cap \<open>n\<close> takes up, in processing order.\<close>

definition capped_links :: "(string \<times> string list) list \<Rightarrow> int \<Rightarrow> string list" where
  "capped_links articles n = concat (map (\<lambda>urls. slice_to urls n) (map snd articles))"


text \<open>What one item of a feed adds to the list of links.\<close>

definition item_link :: "element \<Rightarrow> string list" where
  "item_link item =
     (case find_child item ''link'' of
        None \<Rightarrow> []
      | Some link \<Rightarrow> (case etext link of None \<Rightarrow> [] | Some t \<Rightarrow> if t \<noteq> [] then [t] else []))"

text \<open>
  The bounds as the specification words them, with rounding to the nearest integer
  (\<open>round\<close>, ties upwards), for comparison with \<open>max_len\<close> and \<open>min_len\<close>.
\<close>

definition spec_max_length :: "int \<Rightarrow> int" where
  "spec_max_length w = max 5 (round (0.5 * real_of_int w))"

definition spec_min_length :: "int \<Rightarrow> int" where
  "spec_min_length w = max 3 (round (0.2 * real_of_int w))"


section \<open>A concrete environment\<close>

text \<open>
  \<open>words n\<close> is a text of \<open>n\<close> one-letter words separated by single spaces. The feed has
  five items: two with a link, one whose link has no text, one whose link text is empty
  and one without a link. In the environment the politics feed times out, the world feed
  and the address \<open>feed\<close> deliver that feed, and any other feed body fails to parse; the
  pages \<open>u49\<close>, \<open>u50\<close> and \<open>u600\<close> hold that many words; the summarizer is a parameter.
\<close>

fun words :: "nat \<Rightarrow> string" where
  "words 0 = []"
| "words (Suc 0) = ''w''"
| "words (Suc (Suc n)) = CHR ''w'' # CHR '' '' # words (Suc n)"

definition demo_feed :: element where
  "demo_feed =
     Element ''rss'' None
       [Element ''channel'' None
          [Element ''item'' None
             [Element ''title'' (Some ''first'') [], Element ''link'' (Some ''u50'') []],
           Element ''item'' None [Element ''link'' (Some ''u49'') []],
           Element ''item'' None [Element ''link'' None []],
           Element ''item'' None [Element ''link'' (Some []) []],
           Element ''item'' None [Element ''title'' (Some ''no link'') []]]]"

definition demo_env :: "(string \<Rightarrow> int \<Rightarrow> int \<Rightarrow> error + summary_candidate list) \<Rightarrow> env" where
  "demo_env smz =
     \<lparr>requests_get = (\<lambda>url.
        if url = ''down'' \<or> url = ''https://moxie.foxnews.com/google-publisher/politics.xml''
        then Inl Timeout
        else if url = ''gone'' then Inr \<lparr>status_code = 404, body = []\<rparr>
        else Inr \<lparr>status_code = 200, body = url\<rparr>),
      ET_fromstring = (\<lambda>b.
        if b = ''feed'' \<or> b = ''https://moxie.foxnews.com/google-publisher/world.xml''
        then Inr demo_feed
        else Inl ParseError),
      html_paragraphs = (\<lambda>b.
        if b = ''u50'' then Inr [[], words 50]
        else if b = ''u49'' then Inr [words 49]
        else if b = ''u600'' then Inr [words 600]
        else Inl ParseError),
      summarizer = smz,
      sentiment_analyzer = (\<lambda>t. Inr [\<lparr>label = ''neutral''\<rparr>])\<rparr>"


section \<open>Facts about the loops\<close>

subsection \<open>Windows of a text\<close>

lemma concat_windows:
  "0 < step \<Longrightarrow>
   concat (map (\<lambda>i. take step (drop i xs)) (range_step i (length xs) step)) = drop i xs"
proof (induction i "length xs" step rule: range_step.induct)
  case (1 i step)
  show ?case
  proof (cases "i < length xs")
    case True
    have "take step (drop i xs) @ drop (i + step) xs = drop i xs"
      using append_take_drop_id [of step "drop i xs"] by (simp add: add.commute)
    with 1 True show ?thesis
      by (subst range_step.simps) simp
  next
    case False
    then show ?thesis
      by (subst range_step.simps) simp
  qed
qed

lemma range_step_upt:
  "0 < step \<Longrightarrow>
   range_step i stop step = map (\<lambda>k. i + step * k) [0..<(stop - i + step - 1) div step]"
proof (induction i stop step rule: range_step.induct)
  case (1 i stop step)
  show ?case
  proof (cases "i < stop")
    case True
    define n where "n = (stop - (i + step) + step - 1) div step"
    have cnt: "(stop - i + step - 1) div step = Suc n"
    proof (cases "stop - i \<le> step")
      case True
      with \<open>i < stop\<close> \<open>0 < step\<close> have "n = 0" "(stop - i + step - 1) div step = 1"
        by (simp_all add: n_def div_nat_eqI)
      then show ?thesis by simp
    next
      case False
      then have "stop - i + step - 1 = (stop - (i + step) + step - 1) + step"
        by simp
      then have "(stop - i + step - 1) div step = ((stop - (i + step) + step - 1) + step) div step"
        by (rule arg_cong)
      also have "\<dots> = Suc n"
        using \<open>0 < step\<close> unfolding n_def by (subst div_add_self2) simp_all
      finally show ?thesis .
    qed
    have "range_step i stop step = i # range_step (i + step) stop step"
      using True 1 by (subst range_step.simps) simp
    also have "range_step (i + step) stop step = map (\<lambda>k. i + step + step * k) [0..<n]"
      using 1 True by (simp add: n_def)
    also have "i # map (\<lambda>k. i + step + step * k) [0..<n] = map (\<lambda>k. i + step * k) [0..<Suc n]"
      by (simp add: upt_conv_Cons map_Suc_upt [symmetric] del: upt_Suc)
    finally show ?thesis
      by (simp only: cnt)
  next
    case False
    then have "(stop - i + step - 1) div step = 0"
      using 1 by simp
    with False show ?thesis
      by (subst range_step.simps) simp
  qed
qed

lemma chunks_windows:
  "chunks txt = map (\<lambda>k. take 1000 (drop (1000 * k) txt)) [0..<(length txt + 999) div 1000]"
  by (simp add: chunks_def slice_def range_step_upt comp_def add.commute)

lemma concat_chunks: "concat (chunks txt) = txt"
  using concat_windows [of 1000 "txt" 0] by (simp add: chunks_def slice_def)

lemma ceil_div_1000: "\<lceil>real n / 1000\<rceil> = int ((n + 999) div 1000)"
  by linarith

lemma length_chunks: "length (chunks txt) = (length txt + 999) div 1000"
  by (simp add: chunks_windows)

lemma length_chunk_nth:
  assumes "k < length (chunks txt)"
  shows "length (chunks txt ! k) = (if Suc k < length (chunks txt) then 1000 else length txt - 1000 * k)"
    and "0 < length (chunks txt ! k)"
proof -
  from assms have k: "k < (length txt + 999) div 1000" by (simp add: length_chunks)
  then have nth: "chunks txt ! k = take 1000 (drop (1000 * k) txt)"
    by (simp add: chunks_windows)
  from k have pos: "1000 * k < length txt" by linarith
  show "length (chunks txt ! k) = (if Suc k < length (chunks txt) then 1000 else length txt - 1000 * k)"
    unfolding nth length_chunks using k by (simp add: min_def) linarith
  show "0 < length (chunks txt ! k)"
    unfolding nth using pos by simp
qed


subsection \<open>The chunk loop and the article loops, unfolded\<close>

lemma summarize_chunks_eq:
  "summarize_chunks env cs summaries st =
     (summaries @ chunk_summaries env cs, st\<lparr>calls := calls st @ map chunk_call cs\<rparr>)"
proof (induction cs arbitrary: summaries st)
  case Nil
  show ?case by (simp add: chunk_summaries_def)
next
  case (Cons c cs)
  show ?case
    by (cases "chunk_outcome env c")
       (simp_all add: Cons.IH Let_def record_call_def chunk_summaries_def chunk_call_def
          chunk_outcome_def)
qed

lemma process_article_frame:
  "process_article env url st =
     \<lparr>results = results st @ results (process_article env url init_state),
      calls = calls st @ calls (process_article env url init_state)\<rparr>"
  by (simp add: process_article_def Let_def summarize_chunks_eq record_call_def init_state_def
      split: sum.split)

lemma process_urls_frame:
  "process_urls env urls st =
     \<lparr>results = results st @ concat (map (\<lambda>u. results (process_article env u init_state)) urls),
      calls = calls st @ concat (map (\<lambda>u. calls (process_article env u init_state)) urls)\<rparr>"
proof (induction urls arbitrary: st)
  case Nil
  show ?case by simp
next
  case (Cons u urls)
  show ?case
    by (simp add: Cons.IH) (subst process_article_frame, simp)+
qed

lemma process_sources_frame:
  "process_sources env srcs n st =
     \<lparr>results = results st @
        concat (map (\<lambda>u. results (process_article env u init_state))
                  (concat (map (\<lambda>urls. slice_to urls n) srcs))),
      calls = calls st @
        concat (map (\<lambda>u. calls (process_article env u init_state))
                  (concat (map (\<lambda>urls. slice_to urls n) srcs)))\<rparr>"
proof (induction srcs arbitrary: st)
  case Nil
  show ?case by simp
next
  case (Cons urls srcs)
  show ?case
    by (simp add: Cons.IH) (subst process_urls_frame, simp)+
qed

lemma process_articles_results:
  "results (process_articles env completed n) =
     concat (map (\<lambda>u. results (process_article env u init_state))
               (capped_links (fetch_articles env completed) n))"
  by (simp add: process_articles_def Let_def process_sources_frame capped_links_def init_state_def)

lemma process_articles_calls:
  "calls (process_articles env completed n) =
     concat (map (\<lambda>u. calls (process_article env u init_state))
               (capped_links (fetch_articles env completed) n))"
  by (simp add: process_articles_def Let_def process_sources_frame capped_links_def init_state_def)


subsection \<open>The concrete texts\<close>

lemma is_space_demo [simp]: "is_space CHR '' ''" "\<not> is_space CHR ''w''"
  by (simp_all add: is_space_def)

lemma split_ws_words: "split_ws (words n) = replicate n ''w''"
proof (induction n rule: words.induct)
  case 1
  show ?case by (simp add: split_ws.simps)
next
  case 2
  show ?case by (simp add: split_ws.simps)
next
  case (3 n)
  have "split_ws (words (Suc (Suc n))) = ''w'' # split_ws (CHR '' '' # words (Suc n))"
    by (subst split_ws.simps) simp
  also have "split_ws (CHR '' '' # words (Suc n)) = split_ws (words (Suc n))"
    by (subst split_ws.simps, subst (2) split_ws.simps) simp
  finally show ?case using 3 by simp
qed

lemma length_words: "length (words n) = 2 * n - 1"
  by (induction n rule: words.induct) simp_all

lemma words_nonempty: "words (Suc n) \<noteq> []"
  by (cases n) simp_all

lemma last_words: "last (words (Suc n)) = CHR ''w''"
  by (induction n) (simp_all add: words_nonempty)

lemma dropWhile_words: "dropWhile is_space (words n) = words n"
  by (induction n rule: words.induct) simp_all

lemma re_sub_ws_words: "re_sub_ws (words n) = words n"
  by (induction n rule: words.induct) (simp_all add: dropWhile_words)

lemma strip_words: "strip (words n) = words n"
proof (cases n)
  case 0
  then show ?thesis by (simp add: strip_def)
next
  case (Suc m)
  have "dropWhile is_space (rev (words (Suc m))) = rev (words (Suc m))"
    using last_words [of m] words_nonempty [of m]
    by (simp add: dropWhile_eq_self_iff hd_rev)
  then show ?thesis
    by (simp add: strip_def dropWhile_words Suc)
qed

subsection \<open>One article\<close>

lemma process_article_results:
  "results (process_article env url init_state) =
     (let t = extract_article_text env url; ss = chunk_summaries env (chunks t)
      in if skip_article t \<or> ss = [] then []
         else case classify env (sentiment_input (join '' '' ss)) of
                Inl e \<Rightarrow> []
              | Inr l \<Rightarrow> [\<lparr>summary = join '' '' ss, sentiment = l\<rparr>])"
  by (simp add: process_article_def Let_def summarize_chunks_eq record_call_def init_state_def
      split: sum.split)

lemma process_article_calls:
  "calls (process_article env url init_state) =
     (let t = extract_article_text env url; ss = chunk_summaries env (chunks t)
      in ExtractCall url #
         (if skip_article t then []
          else map chunk_call (chunks t) @
               (if ss = [] then [] else [SentimentCall (sentiment_input (join '' '' ss))])))"
  by (simp add: process_article_def Let_def summarize_chunks_eq record_call_def init_state_def
      split: sum.split)

lemma split_ws_Nil: "split_ws [] = []"
  by (simp add: split_ws.simps)

lemma skip_article_iff: "skip_article t \<longleftrightarrow> length (split_ws t) < 50"
  by (auto simp: skip_article_def split_ws_Nil)

lemma extracted_append: "extracted (xs @ ys) = extracted xs @ extracted ys"
  by (induction xs rule: extracted.induct) simp_all

lemma extracted_chunk_calls: "extracted (map chunk_call cs) = []"
  by (induction cs) (simp_all add: chunk_call_def)

lemma extracted_article: "extracted (calls (process_article env url init_state)) = [url]"
  by (simp add: process_article_calls Let_def extracted_append extracted_chunk_calls)

lemma extracted_concat:
  "extracted (concat (map (\<lambda>u. calls (process_article env u init_state)) urls)) = urls"
  by (induction urls) (simp_all add: extracted_append extracted_article)

lemma sentiment_input_take: "sentiment_input s = take 500 s"
  by (simp add: sentiment_input_def slice_to_def)

lemma slice_to_nonneg: "0 \<le> n \<Longrightarrow> slice_to xs n = take (nat n) xs"
  by (simp add: slice_to_def)

subsection \<open>The feed loop and the collection of the results\<close>

lemma item_links_eq: "item_links items article_urls = article_urls @ concat (map item_link items)"
  by (induction items arbitrary: article_urls)
     (simp_all add: item_link_def split: option.split)

lemma item_link_nonempty: "u \<in> set (item_link item) \<Longrightarrow> u \<noteq> []"
  by (auto simp: item_link_def split: option.splits if_splits)

lemma fetch_source_nonempty: "u \<in> set (fetch_source env name feed_url) \<Longrightarrow> u \<noteq> []"
  by (auto simp: fetch_source_def fetch_source_try_def item_links_eq
      dest: item_link_nonempty split: sum.splits)

lemma fetch_source_failed: "fetch_source_try env feed_url = Inl e \<Longrightarrow> fetch_source env name feed_url = []"
  by (simp add: fetch_source_def)

lemma collect_results_keys:
  "fst ` set (collect_results env completed articles) = fst ` set articles \<union> fst ` set completed"
proof (induction completed arbitrary: articles)
  case Nil
  show ?case by simp
next
  case (Cons p completed)
  obtain s u where p: "p = (s, u)" by (cases p)
  show ?case
    unfolding p by (simp add: future_result_def Cons.IH AList.dom_update Un_assoc)
qed

lemma collect_results_distinct:
  "distinct (map fst articles) \<Longrightarrow> distinct (map fst (collect_results env completed articles))"
  by (induction completed arbitrary: articles)
     (auto simp: future_result_def AList.distinct_update)

lemma collect_results_other:
  "name \<notin> fst ` set completed \<Longrightarrow>
   map_of (collect_results env completed articles) name = map_of articles name"
  by (induction completed arbitrary: articles)
     (auto simp: future_result_def AList.update_conv')

lemma collect_results_entry:
  "distinct (map fst completed) \<Longrightarrow> (name, feed_url) \<in> set completed \<Longrightarrow>
   map_of (collect_results env completed articles) name = Some (fetch_source env name feed_url)"
proof (induction completed arbitrary: articles)
  case Nil
  then show ?case by simp
next
  case (Cons p completed)
  obtain s u where p: "p = (s, u)" by (cases p)
  show ?case
  proof (cases "name = s")
    case True
    with Cons.prems p have "feed_url = u" "name \<notin> fst ` set completed"
      by (auto simp: image_iff)
    then show ?thesis
      using True p by (simp add: future_result_def collect_results_other AList.update_conv')
  next
    case False
    with Cons.prems p have "(name, feed_url) \<in> set completed" "distinct (map fst completed)"
      by auto
    then show ?thesis
      using p Cons.IH by (simp add: future_result_def)
  qed
qed

lemma collect_results_values:
  "(name, urls) \<in> set (collect_results env completed articles) \<Longrightarrow>
   (name, urls) \<in> set articles \<or> (\<exists>feed_url. urls = fetch_source env name feed_url)"
proof (induction completed arbitrary: articles)
  case Nil
  then show ?case by simp
next
  case (Cons p completed)
  obtain s u where p: "p = (s, u)" by (cases p)
  from Cons.prems p
  have "(name, urls) \<in> set (AList.update s (fetch_source env s u) articles)
        \<or> (\<exists>feed_url. urls = fetch_source env name feed_url)"
    using Cons.IH by (simp add: future_result_def)
  moreover have "(name, urls) \<in> set (AList.update s v articles) \<Longrightarrow>
      (name, urls) \<in> set articles \<or> (name, urls) = (s, v)" for v
    by (induction articles) (auto split: if_splits)
  ultimately show ?case by blast
qed


subsection \<open>The concrete feeds\<close>

lemma demo_fetch_source_world:
  "fetch_source (demo_env smz) name ''https://moxie.foxnews.com/google-publisher/world.xml'' = [''u50'', ''u49'']"
  "fetch_source (demo_env smz) name ''feed'' = [''u50'', ''u49'']"
  by (simp_all add: fetch_source_def fetch_source_try_def demo_env_def raise_for_status_def
      demo_feed_def findall_descendants_def find_child_def)

lemma demo_fetch_source_fails:
  "fetch_source_try (demo_env smz) ''https://moxie.foxnews.com/google-publisher/politics.xml'' = Inl Timeout"
  "fetch_source_try (demo_env smz) ''https://moxie.foxnews.com/google-publisher/science.xml'' = Inl ParseError"
  "fetch_source_try (demo_env smz) ''https://moxie.foxnews.com/google-publisher/tech.xml'' = Inl ParseError"
  by (simp_all add: fetch_source_try_def demo_env_def raise_for_status_def)

lemma demo_fetch_articles:
  "fetch_articles (demo_env smz) [(''A'', ''feed'')] = [(''A'', [''u50'', ''u49''])]"
  by (simp add: fetch_articles_def future_result_def demo_fetch_source_world)



section \<open>Chunking\<close>

text \<open>
  C2. For every text the chunks are the consecutive windows of 1000 characters: chunk
  \<open>k\<close> is the slice from \<open>1000 k\<close> to \<open>1000 k + 1000\<close>, it is never empty, every chunk but
  the last has exactly 1000 characters and the last has the rest; the chunks concatenated
  in order give the text back, and there are \<open>ceil (len text / 1000)\<close> of them. \<open>chunks\<close> is a
  total function, so the step always returns and always the same chunks.
\<close>

theorem chunking_windows:
  "chunks txt = map (\<lambda>k. take 1000 (drop (1000 * k) txt)) [0..<length (chunks txt)]
   \<and> concat (chunks txt) = txt
   \<and> int (length (chunks txt)) = \<lceil>real (length txt) / 1000\<rceil>
   \<and> (\<forall>k < length (chunks txt).
        chunks txt ! k = slice txt (1000 * k) (1000 * k + 1000)
        \<and> 0 < length (chunks txt ! k)
        \<and> length (chunks txt ! k) =
            (if Suc k < length (chunks txt) then 1000 else length txt - 1000 * k))"
proof (intro conjI allI impI)
  show "chunks txt = map (\<lambda>k. take 1000 (drop (1000 * k) txt)) [0..<length (chunks txt)]"
    using chunks_windows [of "txt"] by (simp add: length_chunks)
  show "concat (chunks txt) = txt" by (rule concat_chunks)
  show "int (length (chunks txt)) = \<lceil>real (length txt) / 1000\<rceil>"
    by (simp only: ceil_div_1000 length_chunks)
next
  fix k assume k: "k < length (chunks txt)"
  then show "chunks txt ! k = slice txt (1000 * k) (1000 * k + 1000)"
    by (simp add: chunks_windows slice_def)
  from k show "0 < length (chunks txt ! k)" by (rule length_chunk_nth(2))
  from k show "length (chunks txt ! k) =
            (if Suc k < length (chunks txt) then 1000 else length txt - 1000 * k)"
    by (rule length_chunk_nth(1))
qed

theorem chunking_windows_witness:
  "(2::nat) < length (chunks (replicate 2500 CHR ''a''))
   \<and> chunks (replicate 2500 CHR ''a'') ! 2 = replicate 500 CHR ''a''
   \<and> length (chunks (replicate 2500 CHR ''a'')) = 3
   \<and> concat (chunks (replicate 2500 CHR ''a'')) = replicate 2500 CHR ''a''"
proof -
  have n: "length (chunks (replicate 2500 CHR ''a'')) = 3"
    using chunking_windows [of "replicate 2500 CHR ''a''"] by simp
  then have lt: "(2::nat) < length (chunks (replicate 2500 CHR ''a''))" by simp
  have "chunks (replicate 2500 CHR ''a'') ! 2 = replicate 500 CHR ''a''"
    using chunking_windows [of "replicate 2500 CHR ''a''"] lt by (simp add: slice_def)
  moreover have "concat (chunks (replicate 2500 CHR ''a'')) = replicate 2500 CHR ''a''"
    using chunking_windows [of "replicate 2500 CHR ''a''"] by blast
  ultimately show ?thesis using n lt by simp
qed


section \<open>Feed fetcher\<close>

text \<open>
  C4. Let \<open>sources\<close> be any configured sources (a dictionary, so with distinct names, and
  not empty, so that the pool can be created) and let the pool complete the fetches in
  any order \<open>completed\<close>. The mapping returned by
  \<open>fetch_articles\<close> has exactly the source names as keys, each once. Every source's entry
  is the result of its own fetch, whatever happened to the others, and a source whose
  fetch raised (in the request, in the status check or in the XML parser) is present
  with the empty list.
\<close>

theorem fetch_articles_keys:
  assumes "sources \<noteq> []" and "distinct (map fst sources)" and "mset completed = mset sources"
  shows "fst ` set (fetch_articles env completed) = fst ` set sources
         \<and> distinct (map fst (fetch_articles env completed))
         \<and> (\<forall>(name, feed_url) \<in> set sources.
              map_of (fetch_articles env completed) name = Some (fetch_source env name feed_url)
              \<and> ((\<exists>e. fetch_source_try env feed_url = Inl e) \<longrightarrow>
                    map_of (fetch_articles env completed) name = Some []))"
proof -
  have set_eq: "set completed = set sources"
    using assms(3) by (rule mset_eq_setD)
  have "mset (map fst completed) = mset (map fst sources)"
    using assms(3) by simp
  then have dist: "distinct (map fst completed)"
    using assms(2) by (metis mset_eq_imp_distinct_iff)
  have keys: "fst ` set (fetch_articles env completed) = fst ` set sources"
    by (simp add: fetch_articles_def collect_results_keys set_eq)
  have dk: "distinct (map fst (fetch_articles env completed))"
    by (simp add: fetch_articles_def collect_results_distinct)
  have entries: "map_of (fetch_articles env completed) name = Some (fetch_source env name feed_url)"
    if "(name, feed_url) \<in> set sources" for name feed_url
    using that dist set_eq by (simp add: fetch_articles_def collect_results_entry)
  have failed: "map_of (fetch_articles env completed) name = Some []"
    if "(name, feed_url) \<in> set sources" and "fetch_source_try env feed_url = Inl e"
    for name feed_url e
    using entries [OF that(1)] fetch_source_failed [OF that(2)] by simp
  have "\<forall>(name, feed_url) \<in> set sources.
          map_of (fetch_articles env completed) name = Some (fetch_source env name feed_url)
          \<and> ((\<exists>e. fetch_source_try env feed_url = Inl e) \<longrightarrow>
                map_of (fetch_articles env completed) name = Some [])"
    using entries failed by blast
  with keys dk show ?thesis by blast
qed

theorem fetch_articles_keys_witness:
  "get_news_sources \<noteq> []
   \<and> distinct (map fst get_news_sources)
   \<and> mset (rev get_news_sources) = mset get_news_sources
   \<and> fst ` set (fetch_articles (demo_env (\<lambda>c mx mn. Inl ModelError)) (rev get_news_sources)) =
       {''RSS Feed World'', ''RSS Feed Politics'', ''RSS Feed Science'', ''RSS Feed Tech''}
   \<and> fetch_source_try (demo_env (\<lambda>c mx mn. Inl ModelError))
         ''https://moxie.foxnews.com/google-publisher/politics.xml'' = Inl Timeout
   \<and> map_of (fetch_articles (demo_env (\<lambda>c mx mn. Inl ModelError)) (rev get_news_sources))
         ''RSS Feed Politics'' = Some []
   \<and> map_of (fetch_articles (demo_env (\<lambda>c mx mn. Inl ModelError)) (rev get_news_sources))
         ''RSS Feed World'' = Some [''u50'', ''u49'']"
proof -
  let ?D = "demo_env (\<lambda>c mx mn. Inl ModelError)"
  have n: "get_news_sources \<noteq> []"
    by (simp add: get_news_sources_def)
  have d: "distinct (map fst get_news_sources)"
    by (simp add: get_news_sources_def)
  have m: "mset (rev get_news_sources) = mset get_news_sources"
    by simp
  note K = fetch_articles_keys [OF n d m, of ?D]
  have pol: "(''RSS Feed Politics'', ''https://moxie.foxnews.com/google-publisher/politics.xml'')
      \<in> set get_news_sources"
    and wor: "(''RSS Feed World'', ''https://moxie.foxnews.com/google-publisher/world.xml'')
      \<in> set get_news_sources"
    by (simp_all add: get_news_sources_def)
  have keys: "fst ` set (fetch_articles ?D (rev get_news_sources)) =
       {''RSS Feed World'', ''RSS Feed Politics'', ''RSS Feed Science'', ''RSS Feed Tech''}"
    using K by (simp add: get_news_sources_def)
  have "map_of (fetch_articles ?D (rev get_news_sources)) ''RSS Feed Politics'' = Some []"
    using K pol demo_fetch_source_fails(1) [of "\<lambda>c mx mn. Inl ModelError"] by blast
  moreover have "map_of (fetch_articles ?D (rev get_news_sources)) ''RSS Feed World'' =
      Some [''u50'', ''u49'']"
    using K wor demo_fetch_source_world(1) [of "\<lambda>c mx mn. Inl ModelError"] by fastforce
  ultimately show ?thesis
    using n d m keys demo_fetch_source_fails(1) by simp
qed


text \<open>
  C9. No link list returned by \<open>fetch_articles\<close> contains the empty string; and an item
  whose \<open>link\<close> child is missing, or whose link has no text or the empty text, adds nothing
  to the list of links being built.
\<close>

theorem links_nonempty:
  "(\<forall>(name, urls) \<in> set (fetch_articles env completed). [] \<notin> set urls)
   \<and> (find_child item ''link'' = None
        \<or> (\<exists>link. find_child item ''link'' = Some link \<and> (etext link = None \<or> etext link = Some []))
      \<longrightarrow> item_links (before @ item # after) article_urls = item_links (before @ after) article_urls)"
proof (intro conjI impI)
  show "\<forall>(name, urls) \<in> set (fetch_articles env completed). [] \<notin> set urls"
    using collect_results_values [of _ _ env completed "[]"] fetch_source_nonempty
    by (fastforce simp: fetch_articles_def)
next
  assume "find_child item ''link'' = None
        \<or> (\<exists>link. find_child item ''link'' = Some link \<and> (etext link = None \<or> etext link = Some []))"
  then have "item_link item = []"
    by (auto simp: item_link_def)
  then show "item_links (before @ item # after) article_urls = item_links (before @ after) article_urls"
    by (simp add: item_links_eq)
qed

theorem links_nonempty_witness:
  "(''A'', [''u50'', ''u49'']) \<in> set (fetch_articles (demo_env (\<lambda>c mx mn. Inl ModelError)) [(''A'', ''feed'')])
   \<and> [] \<notin> set [''u50'', ''u49'']
   \<and> find_child (Element ''item'' None [Element ''link'' (Some []) []]) ''link''
       = Some (Element ''link'' (Some []) [])
   \<and> item_links ([] @ Element ''item'' None [Element ''link'' (Some []) []] # []) [''u''] = [''u'']"
proof -
  let ?D = "demo_env (\<lambda>c mx mn. Inl ModelError)"
  let ?item = "Element ''item'' None [Element ''link'' (Some []) []]"
  have fc: "find_child ?item ''link'' = Some (Element ''link'' (Some []) [])"
    by (simp add: find_child_def)
  have mem: "(''A'', [''u50'', ''u49'']) \<in> set (fetch_articles ?D [(''A'', ''feed'')])"
    by (simp add: demo_fetch_articles)
  have "[] \<notin> set [''u50'', ''u49'']"
    using links_nonempty [of ?D "[(''A'', ''feed'')]" ?item "[]" "[]" "[''u'']"] mem by blast
  moreover have "item_links ([] @ ?item # []) [''u''] = item_links ([] @ []) [''u'']"
    using links_nonempty [of ?D "[(''A'', ''feed'')]" ?item "[]" "[]" "[''u'']"] fc by simp
  ultimately show ?thesis using mem fc by simp
qed

section \<open>The concrete environment, evaluated\<close>

lemma words_eq_Nil: "words n = [] \<longleftrightarrow> n = 0"
  by (induction n rule: words.induct) simp_all

lemma demo_extract:
  "extract_article_text (demo_env smz) ''u49'' = words 49"
  "extract_article_text (demo_env smz) ''u50'' = words 50"
  "extract_article_text (demo_env smz) ''u600'' = words 600"
  by (simp_all add: extract_article_text_def extract_article_text_try_def demo_env_def
      raise_for_status_def words_eq_Nil re_sub_ws_words strip_words)

lemma demo_classify: "classify (demo_env smz) t = Inr ''neutral''"
  by (simp add: classify_def demo_env_def first_def)

lemma chunks_short: "0 < length t \<Longrightarrow> length t \<le> 1000 \<Longrightarrow> chunks t = [t]"
proof -
  assume a: "0 < length t" "length t \<le> 1000"
  then have "(length t + 999) div 1000 = 1" by linarith
  then show ?thesis using a by (simp add: chunks_windows)
qed

lemma chunks_two:
  "1000 < length t \<Longrightarrow> length t \<le> 2000 \<Longrightarrow> chunks t = [take 1000 t, drop 1000 t]"
proof -
  assume a: "1000 < length t" "length t \<le> 2000"
  then have "(length t + 999) div 1000 = 2" by linarith
  then show ?thesis using a by (simp add: chunks_windows upt_rec [of 0] upt_rec [of 1] numeral_2_eq_2)
qed

lemma demo_chunks:
  "chunks (words 50) = [words 50]"
  "chunks (words 600) = [take 1000 (words 600), drop 1000 (words 600)]"
  by (simp_all add: chunks_short chunks_two length_words)

lemma demo_not_skipped: "\<not> skip_article (words 50)" "\<not> skip_article (words 600)" "skip_article (words 49)"
  by (simp_all add: skip_article_iff split_ws_words)

lemma demo_chunk_outcome_const:
  "chunk_outcome (demo_env (\<lambda>c mx mn. Inr [\<lparr>summary_text = s\<rparr>])) c = Inr s"
  by (simp add: chunk_outcome_def summarize_chunk_def demo_env_def first_def)

lemma demo_chunk_outcome_fail:
  "chunk_outcome (demo_env (\<lambda>c mx mn. Inl ModelError)) c = Inl ModelError"
  by (simp add: chunk_outcome_def summarize_chunk_def demo_env_def)

lemma demo_article_const:
  "process_article (demo_env (\<lambda>c mx mn. Inr [\<lparr>summary_text = s\<rparr>])) ''u50'' init_state =
     \<lparr>results = [\<lparr>summary = s, sentiment = ''neutral''\<rparr>],
      calls = [ExtractCall ''u50'', chunk_call (words 50), SentimentCall (take 500 s)]\<rparr>"
proof -
  let ?D = "demo_env (\<lambda>c mx mn. Inr [\<lparr>summary_text = s\<rparr>])"
  have ss: "chunk_summaries ?D [words 50] = [s]"
    by (simp add: chunk_summaries_def demo_chunk_outcome_const)
  have "results (process_article ?D ''u50'' init_state) = [\<lparr>summary = s, sentiment = ''neutral''\<rparr>]"
    by (simp add: process_article_results demo_extract demo_chunks demo_not_skipped ss
        demo_classify)
  moreover have "calls (process_article ?D ''u50'' init_state) =
      [ExtractCall ''u50'', chunk_call (words 50), SentimentCall (take 500 s)]"
    by (simp add: process_article_calls demo_extract demo_chunks demo_not_skipped ss
        sentiment_input_take)
  ultimately show ?thesis by simp
qed

lemma demo_run_const:
  "process_articles (demo_env (\<lambda>c mx mn. Inr [\<lparr>summary_text = s\<rparr>])) [(''A'', ''feed'')] 1 =
     \<lparr>results = [\<lparr>summary = s, sentiment = ''neutral''\<rparr>],
      calls = [ExtractCall ''u50'', chunk_call (words 50), SentimentCall (take 500 s)]\<rparr>"
  by (simp add: process_articles_def demo_fetch_articles slice_to_def demo_article_const)

lemma demo_short_article:
  "results (process_article (demo_env smz) ''u49'' init_state) = []"
  by (simp add: process_article_results demo_extract demo_not_skipped)

lemma demo_long_chunks:
  "length (take 1000 (words 600)) = 1000" "length (drop 1000 (words 600)) = 199"
  by (simp_all add: length_words)

lemma demo_chunk_outcome_mixed:
  "chunk_outcome
     (demo_env (\<lambda>c mx mn. if length c = 1000 then Inl ModelError
                           else Inr [\<lparr>summary_text = ''ok''\<rparr>])) c =
     (if length c = 1000 then Inl ModelError else Inr ''ok'')"
  by (simp add: chunk_outcome_def summarize_chunk_def demo_env_def first_def)


section \<open>Length check and chunk failures\<close>

lemma process_article_skip:
  "skip_article (extract_article_text env url) \<Longrightarrow>
   process_article env url st = record_call (ExtractCall url) st"
  by (simp add: process_article_def Let_def)

lemma process_urls_results:
  "results (process_urls env urls st) =
     results st @ concat (map (\<lambda>u. results (process_article env u init_state)) urls)"
  by (subst process_urls_frame) simp

lemma process_article_results_frame:
  "results (process_article env url st) = results st @ results (process_article env url init_state)"
  by (subst process_article_frame) simp

text \<open>
  C3. When the extracted text of an article has fewer than 50 words (the empty text
  included), processing the article leaves the result list as it was: the only thing
  that happens is the call of the extractor. The guard of the loop skips a text exactly
  when it has fewer than 50 words, so a text of exactly 50 words passes the length
  check and one of 49 words does not.
\<close>

theorem short_article_no_result:
  "(length (split_ws (extract_article_text env url)) < 50 \<longrightarrow>
      results (process_article env url st) = results st
      \<and> calls (process_article env url st) = calls st @ [ExtractCall url])
   \<and> (extract_article_text env url = [] \<longrightarrow> results (process_article env url st) = results st)
   \<and> (skip_article t \<longleftrightarrow> length (split_ws t) < 50)
   \<and> (length (split_ws t) = 50 \<longrightarrow> \<not> skip_article t)
   \<and> (length (split_ws t) = 49 \<longrightarrow> skip_article t)"
proof (intro conjI impI)
  assume "length (split_ws (extract_article_text env url)) < 50"
  then have "skip_article (extract_article_text env url)"
    by (simp add: skip_article_iff)
  then have eq: "process_article env url st = record_call (ExtractCall url) st"
    by (rule process_article_skip)
  show "results (process_article env url st) = results st"
    by (simp add: eq record_call_def)
  show "calls (process_article env url st) = calls st @ [ExtractCall url]"
    by (simp add: eq record_call_def)
next
  assume "extract_article_text env url = []"
  then have "skip_article (extract_article_text env url)"
    by (simp add: skip_article_def)
  then show "results (process_article env url st) = results st"
    by (simp add: process_article_skip record_call_def)
next
  show "skip_article t \<longleftrightarrow> length (split_ws t) < 50"
    by (rule skip_article_iff)
  show "\<not> skip_article t" if "length (split_ws t) = 50"
    using that by (simp add: skip_article_iff)
  show "skip_article t" if "length (split_ws t) = 49"
    using that by (simp add: skip_article_iff)
qed

theorem short_article_no_result_witness:
  "length (split_ws (extract_article_text (demo_env (\<lambda>c mx mn. Inr [\<lparr>summary_text = ''ok''\<rparr>])) ''u49'')) < 50
   \<and> results (process_article (demo_env (\<lambda>c mx mn. Inr [\<lparr>summary_text = ''ok''\<rparr>])) ''u49'' init_state) = []
   \<and> length (split_ws (words 50)) = 50 \<and> \<not> skip_article (words 50)
   \<and> length (split_ws (words 49)) = 49 \<and> skip_article (words 49)"
proof -
  let ?D = "demo_env (\<lambda>c mx mn. Inr [\<lparr>summary_text = ''ok''\<rparr>])"
  have short: "length (split_ws (extract_article_text ?D ''u49'')) < 50"
    by (simp add: demo_extract split_ws_words)
  have "results (process_article ?D ''u49'' init_state) = results init_state"
    using short_article_no_result [of ?D "''u49''" init_state "words 50"] short by blast
  moreover have w50: "length (split_ws (words 50)) = 50"
    by (simp add: split_ws_words)
  moreover have "\<not> skip_article (words 50)"
    using short_article_no_result [of ?D "''u49''" init_state "words 50"] w50 by blast
  moreover have w49: "length (split_ws (words 49)) = 49"
    by (simp add: split_ws_words)
  moreover have "skip_article (words 49)"
    using short_article_no_result [of ?D "''u49''" init_state "words 49"] w49 by blast
  ultimately show ?thesis
    using short by (simp add: init_state_def)
qed

lemma chunk_summaries_all_failed:
  "(\<forall>c \<in> set cs. \<exists>e. chunk_outcome env c = Inl e) \<Longrightarrow> chunk_summaries env cs = []"
  by (induction cs) (auto simp: chunk_summaries_def)

lemma chunk_summaries_append:
  "chunk_summaries env (xs @ ys) = chunk_summaries env xs @ chunk_summaries env ys"
  by (simp add: chunk_summaries_def)

text \<open>
  C5. When the summarization call raises for every chunk of an article, the article adds
  nothing to the result list. A chunk whose call raises only drops out: the summaries
  the loop returns are those already collected, then those of the chunks before it, then
  those of the chunks after it; in particular the summary of a chunk that follows the
  failing one and succeeds is kept. The summarizer is called for every chunk, the
  failing one and those after it included.
\<close>

theorem all_chunks_failed_no_result:
  "((\<forall>c \<in> set (chunks (extract_article_text env url)). \<exists>e. chunk_outcome env c = Inl e) \<longrightarrow>
      results (process_article env url st) = results st)
   \<and> ((\<exists>e. chunk_outcome env c = Inl e) \<longrightarrow>
        fst (summarize_chunks env (before @ c # after) summaries st) =
          fst (summarize_chunks env (before @ after) summaries st)
        \<and> fst (summarize_chunks env (before @ c # after) summaries st) =
            summaries @ chunk_summaries env before @ chunk_summaries env after
        \<and> calls (snd (summarize_chunks env (before @ c # after) summaries st)) =
            calls st @ map chunk_call before @ chunk_call c # map chunk_call after)
   \<and> ((\<exists>e. chunk_outcome env c = Inl e) \<and> chunk_outcome env d = Inr s \<longrightarrow>
        fst (summarize_chunks env (before @ c # d # after) summaries st) =
          summaries @ chunk_summaries env before @ s # chunk_summaries env after)"
proof (intro conjI impI)
  assume "\<forall>c \<in> set (chunks (extract_article_text env url)). \<exists>e. chunk_outcome env c = Inl e"
  then have "chunk_summaries env (chunks (extract_article_text env url)) = []"
    by (rule chunk_summaries_all_failed)
  then have "results (process_article env url init_state) = []"
    by (simp add: process_article_results)
  then show "results (process_article env url st) = results st"
    by (subst process_article_results_frame) simp
next
  assume "\<exists>e. chunk_outcome env c = Inl e"
  then have c: "chunk_summaries env [c] = []"
    by (auto simp: chunk_summaries_def)
  then have "chunk_summaries env (before @ [c] @ after) = chunk_summaries env (before @ after)"
    by (simp only: chunk_summaries_append) simp
  then show "fst (summarize_chunks env (before @ c # after) summaries st) =
          fst (summarize_chunks env (before @ after) summaries st)"
    by (simp add: summarize_chunks_eq)
  have "chunk_summaries env (before @ [c] @ after) =
      chunk_summaries env before @ chunk_summaries env after"
    using c by (simp only: chunk_summaries_append) simp
  then show "fst (summarize_chunks env (before @ c # after) summaries st) =
      summaries @ chunk_summaries env before @ chunk_summaries env after"
    by (simp add: summarize_chunks_eq)
  show "calls (snd (summarize_chunks env (before @ c # after) summaries st)) =
            calls st @ map chunk_call before @ chunk_call c # map chunk_call after"
    by (simp add: summarize_chunks_eq)
next
  assume a: "(\<exists>e. chunk_outcome env c = Inl e) \<and> chunk_outcome env d = Inr s"
  then have c: "chunk_summaries env [c] = []" and d: "chunk_summaries env [d] = [s]"
    by (auto simp: chunk_summaries_def)
  have "chunk_summaries env (before @ [c] @ [d] @ after) =
      chunk_summaries env before @ s # chunk_summaries env after"
    using c d by (simp only: chunk_summaries_append) simp
  then show "fst (summarize_chunks env (before @ c # d # after) summaries st) =
      summaries @ chunk_summaries env before @ s # chunk_summaries env after"
    by (simp add: summarize_chunks_eq)
qed

theorem all_chunks_failed_no_result_witness:
  "chunks (extract_article_text (demo_env (\<lambda>c mx mn. Inl ModelError)) ''u50'') = [words 50]
   \<and> chunk_outcome (demo_env (\<lambda>c mx mn. Inl ModelError)) (words 50) = Inl ModelError
   \<and> results (process_article (demo_env (\<lambda>c mx mn. Inl ModelError)) ''u50'' init_state) = []
   \<and> chunk_outcome
        (demo_env (\<lambda>c mx mn. if length c = 1000 then Inl ModelError
                              else Inr [\<lparr>summary_text = ''ok''\<rparr>]))
        (take 1000 (words 600)) = Inl ModelError
   \<and> chunk_outcome
        (demo_env (\<lambda>c mx mn. if length c = 1000 then Inl ModelError
                              else Inr [\<lparr>summary_text = ''ok''\<rparr>]))
        (drop 1000 (words 600)) = Inr ''ok''
   \<and> fst (summarize_chunks
        (demo_env (\<lambda>c mx mn. if length c = 1000 then Inl ModelError
                              else Inr [\<lparr>summary_text = ''ok''\<rparr>]))
        ([] @ take 1000 (words 600) # drop 1000 (words 600) # []) [] init_state) = [''ok'']
   \<and> results (process_article
        (demo_env (\<lambda>c mx mn. if length c = 1000 then Inl ModelError
                              else Inr [\<lparr>summary_text = ''ok''\<rparr>]))
        ''u600'' init_state) = [\<lparr>summary = ''ok'', sentiment = ''neutral''\<rparr>]"
proof -
  let ?D = "demo_env (\<lambda>c mx mn. Inl ModelError)"
  let ?M = "demo_env (\<lambda>c mx mn. if length c = 1000 then Inl ModelError
                              else Inr [\<lparr>summary_text = ''ok''\<rparr>])"
  let ?c1 = "take 1000 (words 600)"
  let ?c2 = "drop 1000 (words 600)"
  have ch: "chunks (extract_article_text ?D ''u50'') = [words 50]"
    by (simp add: demo_extract demo_chunks)
  have fail: "chunk_outcome ?D (words 50) = Inl ModelError"
    by (rule demo_chunk_outcome_fail)
  have all: "\<forall>c \<in> set (chunks (extract_article_text ?D ''u50'')). \<exists>e. chunk_outcome ?D c = Inl e"
    using ch fail by simp
  have r1: "results (process_article ?D ''u50'' init_state) = results init_state"
    using all_chunks_failed_no_result
      [of ?D "''u50''" init_state "words 50" "[]" "[]" "[]" "words 49" "[]"] all
    by blast
  have f1: "chunk_outcome ?M ?c1 = Inl ModelError"
    by (simp only: demo_chunk_outcome_mixed demo_long_chunks) simp
  have s2: "chunk_outcome ?M ?c2 = Inr ''ok''"
    by (simp only: demo_chunk_outcome_mixed demo_long_chunks) simp
  have "fst (summarize_chunks ?M ([] @ ?c1 # ?c2 # []) [] init_state) =
      [] @ chunk_summaries ?M [] @ ''ok'' # chunk_summaries ?M []"
    using all_chunks_failed_no_result
      [of ?M "''u600''" init_state ?c1 "[]" "[]" "[]" ?c2 "''ok''"] f1 s2
    by blast
  then have kept: "fst (summarize_chunks ?M ([] @ ?c1 # ?c2 # []) [] init_state) = [''ok'']"
    by (simp add: chunk_summaries_def)
  have ss: "chunk_summaries ?M (chunks (words 600)) = [''ok'']"
    using f1 s2 by (simp add: demo_chunks chunk_summaries_def)
  have r2: "results (process_article ?M ''u600'' init_state) =
      [\<lparr>summary = ''ok'', sentiment = ''neutral''\<rparr>]"
    by (simp add: process_article_results demo_extract demo_not_skipped ss demo_classify)
  show ?thesis
    using ch fail r1 f1 s2 kept r2 by (simp add: init_state_def)
qed

section \<open>Extraction failures and the cap per source\<close>

lemma extract_try_fails_iff:
  "extract_article_text_try env url = Inl e \<longleftrightarrow>
     requests_get env url = Inl e
     \<or> (\<exists>r. requests_get env url = Inr r
            \<and> (raise_for_status r = Inl e
                 \<or> (raise_for_status r = Inr () \<and> html_paragraphs env (body r) = Inl e)))"
  by (auto simp: extract_article_text_try_def Let_def split: sum.splits)

text \<open>
  C8. When a step of the extraction raises (the request, the status check or the HTML
  parser), the extractor returns the empty string; the length check then skips the
  article, whose processing only records the call of the extractor; and the results of
  a list of links are those of the list without the failing link, namely the earlier
  results followed by the results of the links before it and of the links after it, so
  these are processed as usual.
\<close>

theorem extraction_failure_skipped:
  assumes "requests_get env url = Inl e
     \<or> (\<exists>r. requests_get env url = Inr r
            \<and> (raise_for_status r = Inl e
                 \<or> (raise_for_status r = Inr () \<and> html_paragraphs env (body r) = Inl e)))"
  shows "extract_article_text_try env url = Inl e
     \<and> extract_article_text env url = []
     \<and> skip_article (extract_article_text env url)
     \<and> process_article env url st = record_call (ExtractCall url) st
     \<and> results (process_urls env (before @ url # after) st) =
         results (process_urls env (before @ after) st)
     \<and> results (process_urls env (before @ url # after) st) =
         results st
         @ concat (map (\<lambda>u. results (process_article env u init_state)) before)
         @ concat (map (\<lambda>u. results (process_article env u init_state)) after)"
proof -
  from assms have raised: "extract_article_text_try env url = Inl e"
    by (simp only: extract_try_fails_iff)
  then have empty: "extract_article_text env url = []"
    by (simp add: extract_article_text_def)
  then have skip: "skip_article (extract_article_text env url)"
    by (simp add: skip_article_def)
  then have step: "process_article env url st = record_call (ExtractCall url) st" for st
    by (rule process_article_skip)
  have none: "results (process_article env url init_state) = []"
    by (simp add: step record_call_def init_state_def)
  then have rel: "results (process_urls env (before @ url # after) st) =
         results (process_urls env (before @ after) st)"
    by (simp add: process_urls_results)
  from none have "results (process_urls env (before @ url # after) st) =
         results st
         @ concat (map (\<lambda>u. results (process_article env u init_state)) before)
         @ concat (map (\<lambda>u. results (process_article env u init_state)) after)"
    by (simp add: process_urls_results)
  with raised empty skip step rel show ?thesis by blast
qed

theorem extraction_failure_skipped_witness:
  "requests_get (demo_env (\<lambda>c mx mn. Inr [\<lparr>summary_text = ''ok''\<rparr>])) ''down'' = Inl Timeout
   \<and> extract_article_text (demo_env (\<lambda>c mx mn. Inr [\<lparr>summary_text = ''ok''\<rparr>])) ''down'' = []
   \<and> process_article (demo_env (\<lambda>c mx mn. Inr [\<lparr>summary_text = ''ok''\<rparr>])) ''down'' init_state =
       \<lparr>results = [], calls = [ExtractCall ''down'']\<rparr>
   \<and> results (process_urls (demo_env (\<lambda>c mx mn. Inr [\<lparr>summary_text = ''ok''\<rparr>]))
         ([''u49''] @ ''down'' # [''u50'']) init_state) =
       results (process_urls (demo_env (\<lambda>c mx mn. Inr [\<lparr>summary_text = ''ok''\<rparr>]))
         ([''u49''] @ [''u50'']) init_state)
   \<and> results (process_urls (demo_env (\<lambda>c mx mn. Inr [\<lparr>summary_text = ''ok''\<rparr>]))
         ([''u49''] @ ''down'' # [''u50'']) init_state) =
       [\<lparr>summary = ''ok'', sentiment = ''neutral''\<rparr>]"
proof -
  let ?D = "demo_env (\<lambda>c mx mn. Inr [\<lparr>summary_text = ''ok''\<rparr>])"
  have down: "requests_get ?D ''down'' = Inl Timeout"
    by (simp add: demo_env_def)
  then have hyp: "requests_get ?D ''down'' = Inl Timeout
     \<or> (\<exists>r. requests_get ?D ''down'' = Inr r
            \<and> (raise_for_status r = Inl Timeout
                 \<or> (raise_for_status r = Inr () \<and> html_paragraphs ?D (body r) = Inl Timeout)))"
    by (rule disjI1)
  note K = extraction_failure_skipped [OF hyp, of init_state "[''u49'']" "[''u50'']"]
  have "results (process_urls ?D ([''u49''] @ ''down'' # [''u50'']) init_state) =
      results init_state
      @ concat (map (\<lambda>u. results (process_article ?D u init_state)) [''u49''])
      @ concat (map (\<lambda>u. results (process_article ?D u init_state)) [''u50''])"
    using K by blast
  moreover have "results init_state = []"
    by (simp add: init_state_def)
  ultimately have full: "results (process_urls ?D ([''u49''] @ ''down'' # [''u50'']) init_state) =
      [\<lparr>summary = ''ok'', sentiment = ''neutral''\<rparr>]"
    by (simp add: demo_short_article demo_article_const)
  have "extract_article_text ?D ''down'' = []"
    and "process_article ?D ''down'' init_state = record_call (ExtractCall ''down'') init_state"
    and "results (process_urls ?D ([''u49''] @ ''down'' # [''u50'']) init_state) =
       results (process_urls ?D ([''u49''] @ [''u50'']) init_state)"
    using K by blast+
  then show ?thesis
    using down full by (simp add: record_call_def init_state_def)
qed

text \<open>
  C7. For a cap \<open>max_articles \<ge> 0\<close>, the links handed to the extractor during a run are,
  source after source in the order of the fetched mapping, the first \<open>max_articles\<close> links
  of each source in feed order, and the results are those of these links in that order.
  For a source with two links and cap 1 the run processes the first link and nothing
  else. The default cap of \<open>process_articles\<close> is 5.
\<close>

theorem cap_per_source:
  assumes "0 \<le> max_articles"
  shows "extracted (calls (process_articles env completed max_articles)) =
           concat (map (\<lambda>(source, urls). take (nat max_articles) urls) (fetch_articles env completed))
     \<and> results (process_articles env completed max_articles) =
         concat (map (\<lambda>u. results (process_article env u init_state))
           (concat (map (\<lambda>(source, urls). take (nat max_articles) urls)
              (fetch_articles env completed))))
     \<and> process_sources env [[u1, u2]] 1 st = process_article env u1 st
     \<and> max_articles_default = 5
     \<and> process_articles_default env completed = process_articles env completed 5"
proof -
  have links: "capped_links (fetch_articles env completed) max_articles =
      concat (map (\<lambda>(source, urls). take (nat max_articles) urls) (fetch_articles env completed))"
    using assms by (simp add: capped_links_def slice_to_nonneg comp_def case_prod_unfold)
  have "extracted (calls (process_articles env completed max_articles)) =
      capped_links (fetch_articles env completed) max_articles"
    by (simp only: process_articles_calls extracted_concat)
  moreover have "process_sources env [[u1, u2]] 1 st = process_article env u1 st"
    by (simp add: slice_to_def)
  moreover have "process_articles_default env completed = process_articles env completed 5"
    by (simp add: process_articles_default_def max_articles_default_def)
  ultimately show ?thesis
    using links process_articles_results [of env completed max_articles]
    by (simp add: max_articles_default_def)
qed

theorem cap_per_source_witness:
  "(0::int) \<le> 1
   \<and> fetch_articles (demo_env (\<lambda>c mx mn. Inl ModelError)) [(''A'', ''feed'')] =
       [(''A'', [''u50'', ''u49''])]
   \<and> extracted (calls (process_articles (demo_env (\<lambda>c mx mn. Inl ModelError)) [(''A'', ''feed'')] 1)) =
       [''u50'']"
proof -
  let ?D = "demo_env (\<lambda>c mx mn. Inl ModelError)"
  have h: "(0::int) \<le> 1" by simp
  show ?thesis
    using cap_per_source [OF h, of ?D "[(''A'', ''feed'')]"] by (simp add: demo_fetch_articles)
qed


section \<open>Sentiment input\<close>

lemma article_sentiment_calls:
  "SentimentCall t \<in> set (calls (process_article env url init_state)) \<Longrightarrow>
   \<exists>ss. ss \<noteq> [] \<and> t = sentiment_input (join '' '' ss)"
  by (auto simp: process_article_calls Let_def chunk_call_def split: if_splits)

lemma article_result_classified:
  "r \<in> set (results (process_article env url init_state)) \<Longrightarrow>
   SentimentCall (sentiment_input (summary r)) \<in> set (calls (process_article env url init_state))
   \<and> classify env (sentiment_input (summary r)) = Inr (sentiment r)"
  by (auto simp: process_article_results process_article_calls Let_def split: if_splits sum.splits)

text \<open>
  C6. Every text passed to the sentiment pipeline during a run has at most 500
  characters and is the first 500 characters of a joined summary; for every result of
  the run, the pipeline was called on the first 500 characters of its summary and the
  result carries the label of that call. \<open>final_summary[:500]\<close> never raises: a summary of
  at most 500 characters is passed whole, a longer one is cut.
\<close>

theorem sentiment_input_bounded:
  "(\<forall>t. SentimentCall t \<in> set (calls (process_articles env completed max_articles)) \<longrightarrow>
        length t \<le> 500 \<and> (\<exists>ss. ss \<noteq> [] \<and> t = take 500 (join '' '' ss)))
   \<and> (\<forall>r \<in> set (results (process_articles env completed max_articles)).
        SentimentCall (take 500 (summary r)) \<in> set (calls (process_articles env completed max_articles))
        \<and> classify env (take 500 (summary r)) = Inr (sentiment r))
   \<and> sentiment_input s = take 500 s
   \<and> length (sentiment_input s) \<le> 500
   \<and> (length s \<le> 500 \<longrightarrow> sentiment_input s = s)"
proof (intro conjI allI ballI impI)
  fix t
  assume "SentimentCall t \<in> set (calls (process_articles env completed max_articles))"
  then obtain u where "SentimentCall t \<in> set (calls (process_article env u init_state))"
    by (auto simp: process_articles_calls)
  from article_sentiment_calls [OF this]
  obtain ss where ss: "ss \<noteq> []" "t = take 500 (join '' '' ss)"
    by (auto simp: sentiment_input_take)
  then show "length t \<le> 500" by simp
  from ss show "\<exists>ss. ss \<noteq> [] \<and> t = take 500 (join '' '' ss)" by blast
next
  fix r
  assume "r \<in> set (results (process_articles env completed max_articles))"
  then obtain u where u: "u \<in> set (capped_links (fetch_articles env completed) max_articles)"
      and r: "r \<in> set (results (process_article env u init_state))"
    by (auto simp: process_articles_results)
  from article_result_classified [OF r]
  have c: "SentimentCall (take 500 (summary r)) \<in> set (calls (process_article env u init_state))"
    and l: "classify env (take 500 (summary r)) = Inr (sentiment r)"
    by (simp_all add: sentiment_input_take)
  from c u show "SentimentCall (take 500 (summary r))
      \<in> set (calls (process_articles env completed max_articles))"
    by (auto simp: process_articles_calls)
  from l show "classify env (take 500 (summary r)) = Inr (sentiment r)" .
next
  show "sentiment_input s = take 500 s" by (rule sentiment_input_take)
  show "length (sentiment_input s) \<le> 500" by (simp add: sentiment_input_take)
  show "sentiment_input s = s" if "length s \<le> 500"
    using that by (simp add: sentiment_input_take)
qed

theorem sentiment_input_bounded_witness:
  "\<lparr>summary = replicate 600 CHR ''x'', sentiment = ''neutral''\<rparr>
     \<in> set (results (process_articles
          (demo_env (\<lambda>c mx mn. Inr [\<lparr>summary_text = replicate 600 CHR ''x''\<rparr>])) [(''A'', ''feed'')] 1))
   \<and> SentimentCall (replicate 500 CHR ''x'')
     \<in> set (calls (process_articles
          (demo_env (\<lambda>c mx mn. Inr [\<lparr>summary_text = replicate 600 CHR ''x''\<rparr>])) [(''A'', ''feed'')] 1))
   \<and> length (replicate 500 CHR ''x'') \<le> 500
   \<and> length ''short'' \<le> 500 \<and> sentiment_input ''short'' = ''short''"
proof -
  let ?D = "demo_env (\<lambda>c mx mn. Inr [\<lparr>summary_text = replicate 600 CHR ''x''\<rparr>])"
  let ?r = "\<lparr>summary = replicate 600 CHR ''x'', sentiment = ''neutral''\<rparr>"
  note K = sentiment_input_bounded [of ?D "[(''A'', ''feed'')]" 1 "''short''"]
  have r: "?r \<in> set (results (process_articles ?D [(''A'', ''feed'')] 1))"
    by (simp add: demo_run_const)
  from K r have "SentimentCall (take 500 (summary ?r))
      \<in> set (calls (process_articles ?D [(''A'', ''feed'')] 1))"
    by blast
  then have c: "SentimentCall (replicate 500 CHR ''x'')
      \<in> set (calls (process_articles ?D [(''A'', ''feed'')] 1))"
    by simp
  with K have "length (replicate 500 CHR ''x'') \<le> 500"
    by blast
  moreover have "length ''short'' \<le> 500" by simp
  moreover from K this have "sentiment_input ''short'' = ''short''" by blast
  ultimately show ?thesis using r c by simp
qed


section \<open>Summary length bounds and empty summaries\<close>

lemma floor_half: "\<lfloor>real_of_int w / 2\<rfloor> = w div 2"
  using floor_divide_of_int_eq [of w 2, where ?'a = real] by simp

lemma floor_fifth: "\<lfloor>real_of_int w / 5\<rfloor> = w div 5"
  using floor_divide_of_int_eq [of w 5, where ?'a = real] by simp

lemma chunk_call_floor:
  "chunk_call c =
     SummarizerCall c (max 5 \<lfloor>real (length (split_ws c)) / 2\<rfloor>)
       (max 3 \<lfloor>real (length (split_ws c)) / 5\<rfloor>)"
  using floor_half [of "int (length (split_ws c))"] floor_fifth [of "int (length (split_ws c))"]
  by (simp add: chunk_call_def max_len_def min_len_def)

lemma chunk_outcome_floor:
  "chunk_outcome env c =
     summarize_chunk env c (max 5 \<lfloor>real (length (split_ws c)) / 2\<rfloor>)
       (max 3 \<lfloor>real (length (split_ws c)) / 5\<rfloor>)"
  using floor_half [of "int (length (split_ws c))"] floor_fifth [of "int (length (split_ws c))"]
  by (simp add: chunk_outcome_def max_len_def min_len_def)

lemma chunk_summaries_floor:
  "chunk_summaries env cs =
     concat (map (\<lambda>c. case summarize_chunk env c (max 5 \<lfloor>real (length (split_ws c)) / 2\<rfloor>)
                             (max 3 \<lfloor>real (length (split_ws c)) / 5\<rfloor>) of
                        Inr s \<Rightarrow> [s] | Inl e \<Rightarrow> []) cs)"
  unfolding chunk_summaries_def
  by (rule arg_cong [where f = concat], rule map_cong [OF refl]) (simp only: chunk_outcome_floor)

text \<open>
  C1, as amended. For every chunk with \<open>w\<close> words the chunk loop calls the summarizer with
  \<open>max_length = max 5 (floor (w / 2))\<close> and \<open>min_length = max 3 (floor (w / 5))\<close>: the products
  are truncated, not rounded. The summaries the loop returns are the answers of the
  summarizer at exactly these bounds, chunk by chunk, and the calls it records carry the
  same bounds. One word gives 5 and 3, 100 words give 50 and 20, 6 words give 5 and 3.
\<close>

theorem summary_bounds_truncated:
  "summarize_chunks env cs summaries st =
     (summaries @
      concat (map (\<lambda>c. case summarize_chunk env c (max 5 \<lfloor>real (length (split_ws c)) / 2\<rfloor>)
                              (max 3 \<lfloor>real (length (split_ws c)) / 5\<rfloor>) of
                         Inr s \<Rightarrow> [s] | Inl e \<Rightarrow> []) cs),
      st\<lparr>calls := calls st @
            map (\<lambda>c. SummarizerCall c (max 5 \<lfloor>real (length (split_ws c)) / 2\<rfloor>)
                        (max 3 \<lfloor>real (length (split_ws c)) / 5\<rfloor>)) cs\<rparr>)
   \<and> calls (snd (summarize_chunks env cs summaries st)) =
     calls st @
     map (\<lambda>c. SummarizerCall c (max 5 \<lfloor>real (length (split_ws c)) / 2\<rfloor>)
                 (max 3 \<lfloor>real (length (split_ws c)) / 5\<rfloor>)) cs
   \<and> max_len w = max 5 \<lfloor>real_of_int w / 2\<rfloor>
   \<and> min_len w = max 3 \<lfloor>real_of_int w / 5\<rfloor>
   \<and> max_len 1 = 5 \<and> min_len 1 = 3
   \<and> max_len 100 = 50 \<and> min_len 100 = 20
   \<and> max_len 6 = 5 \<and> min_len 6 = 3"
proof -
  have m: "map chunk_call cs =
      map (\<lambda>c. SummarizerCall c (max 5 \<lfloor>real (length (split_ws c)) / 2\<rfloor>)
                 (max 3 \<lfloor>real (length (split_ws c)) / 5\<rfloor>)) cs"
    by (rule map_cong [OF refl]) (rule chunk_call_floor)
  have full: "summarize_chunks env cs summaries st =
     (summaries @
      concat (map (\<lambda>c. case summarize_chunk env c (max 5 \<lfloor>real (length (split_ws c)) / 2\<rfloor>)
                              (max 3 \<lfloor>real (length (split_ws c)) / 5\<rfloor>) of
                         Inr s \<Rightarrow> [s] | Inl e \<Rightarrow> []) cs),
      st\<lparr>calls := calls st @
            map (\<lambda>c. SummarizerCall c (max 5 \<lfloor>real (length (split_ws c)) / 2\<rfloor>)
                        (max 3 \<lfloor>real (length (split_ws c)) / 5\<rfloor>)) cs\<rparr>)"
    by (simp only: summarize_chunks_eq m chunk_summaries_floor)
  then have "calls (snd (summarize_chunks env cs summaries st)) =
     calls st @
     map (\<lambda>c. SummarizerCall c (max 5 \<lfloor>real (length (split_ws c)) / 2\<rfloor>)
                 (max 3 \<lfloor>real (length (split_ws c)) / 5\<rfloor>)) cs"
    by simp
  moreover have "max_len w = max 5 \<lfloor>real_of_int w / 2\<rfloor>" "min_len w = max 3 \<lfloor>real_of_int w / 5\<rfloor>"
    by (simp_all only: floor_half floor_fifth max_len_def min_len_def)
  moreover have "max_len 1 = 5" "min_len 1 = 3" "max_len 100 = 50" "min_len 100 = 20"
    "max_len 6 = 5" "min_len 6 = 3"
    by (simp_all add: max_len_def min_len_def)
  ultimately show ?thesis using full by blast
qed

theorem summary_bounds_truncated_witness:
  "summarize_chunks
     (demo_env (\<lambda>c mx mn. if mx = 9 \<and> mn = 3 then Inr [\<lparr>summary_text = ''ok''\<rparr>]
                           else Inl ModelError))
     [words 18] [] init_state =
   ([''ok''], \<lparr>results = [], calls = [SummarizerCall (words 18) 9 3]\<rparr>)"
proof -
  let ?D = "demo_env (\<lambda>c mx mn. if mx = 9 \<and> mn = 3 then Inr [\<lparr>summary_text = ''ok''\<rparr>]
                           else Inl ModelError)"
  have f: "\<lfloor>real (18::nat) / 2\<rfloor> = 9" "\<lfloor>real (18::nat) / 5\<rfloor> = 3"
    using floor_half [of 18] floor_fifth [of 18] by simp_all
  note K = summary_bounds_truncated [of ?D "[words 18]" "[]" init_state, THEN conjunct1]
  show ?thesis
    by (subst K) (simp add: split_ws_words f summarize_chunk_def demo_env_def first_def init_state_def)
qed

text \<open>
  C1 as stated fails: for a chunk of 18 words the loop passes \<open>min_length = 3\<close>, while
  \<open>max 3 (round 3.6)\<close> is 4. No tie is involved, so the rounding rule does not matter.
\<close>

theorem summary_bounds_round_counterexample:
  "length (split_ws (words 18)) = 18
   \<and> calls (snd (summarize_chunks (demo_env (\<lambda>c mx mn. Inl ModelError)) [words 18] [] init_state)) =
       [SummarizerCall (words 18) 9 3]
   \<and> spec_max_length 18 = 9 \<and> spec_min_length 18 = 4
   \<and> min_len 18 \<noteq> spec_min_length 18"
proof -
  have r: "round (0.2 * real_of_int 18) = 4" "round (0.5 * real_of_int 18) = 9"
    by (simp_all add: round_def)
  have "calls (snd (summarize_chunks (demo_env (\<lambda>c mx mn. Inl ModelError)) [words 18] [] init_state)) =
       [SummarizerCall (words 18) 9 3]"
    by (simp add: summarize_chunks_eq chunk_call_def split_ws_words max_len_def min_len_def
        init_state_def)
  then show ?thesis
    using r by (simp add: split_ws_words spec_max_length_def spec_min_length_def min_len_def)
qed

text \<open>
  C10 as stated fails in its last clause: here the article has two chunks, both calls
  succeed with the empty text, and the summary of the appended result is the single
  space that joins them, not the empty string.
\<close>

theorem empty_summaries_joined_counterexample:
  "map (chunk_outcome (demo_env (\<lambda>c mx mn. Inr [\<lparr>summary_text = []\<rparr>])))
       (chunks (extract_article_text (demo_env (\<lambda>c mx mn. Inr [\<lparr>summary_text = []\<rparr>])) ''u600'')) =
     [Inr [], Inr []]
   \<and> results (process_article (demo_env (\<lambda>c mx mn. Inr [\<lparr>summary_text = []\<rparr>])) ''u600'' init_state) =
       [\<lparr>summary = '' '', sentiment = ''neutral''\<rparr>]"
proof -
  let ?D = "demo_env (\<lambda>c mx mn. Inr [\<lparr>summary_text = []\<rparr>])"
  have ss: "chunk_summaries ?D (chunks (words 600)) = [[], []]"
    by (simp add: chunk_summaries_def demo_chunks demo_chunk_outcome_const)
  have "results (process_article ?D ''u600'' init_state) = [\<lparr>summary = '' '', sentiment = ''neutral''\<rparr>]"
    by (simp add: process_article_results demo_extract demo_not_skipped ss demo_classify)
  then show ?thesis
    by (simp add: demo_extract demo_chunks demo_chunk_outcome_const)
qed

text \<open>
  C10, as amended. A result is appended exactly when the article passes the length check,
  at least one chunk's summarization call succeeds and the sentiment call succeeds; the
  joined summary text is not looked at. So when exactly one chunk's call succeeds and
  returns the empty text, and the sentiment call returns, the result list gains an
  element whose summary is the empty string; this happens for the page \<open>u50\<close> of the
  concrete environment with a summarizer that returns the empty text.
\<close>

theorem single_empty_summary_appended:
  "(\<not> skip_article (extract_article_text env url)
      \<and> chunk_summaries env (chunks (extract_article_text env url)) = [[]]
      \<and> classify env [] = Inr l \<longrightarrow>
      results (process_article env url st) = results st @ [\<lparr>summary = [], sentiment = l\<rparr>])
   \<and> (results (process_article env url st) \<noteq> results st \<longleftrightarrow>
        \<not> skip_article (extract_article_text env url)
        \<and> chunk_summaries env (chunks (extract_article_text env url)) \<noteq> []
        \<and> (\<exists>l. classify env (sentiment_input
              (join '' '' (chunk_summaries env (chunks (extract_article_text env url))))) = Inr l))
   \<and> results (process_article (demo_env (\<lambda>c mx mn. Inr [\<lparr>summary_text = []\<rparr>])) ''u50'' init_state) =
       [\<lparr>summary = [], sentiment = ''neutral''\<rparr>]"
proof (intro conjI impI)
  assume a: "\<not> skip_article (extract_article_text env url)
      \<and> chunk_summaries env (chunks (extract_article_text env url)) = [[]]
      \<and> classify env [] = Inr l"
  then have "results (process_article env url init_state) = [\<lparr>summary = [], sentiment = l\<rparr>]"
    by (simp add: process_article_results sentiment_input_take)
  then show "results (process_article env url st) = results st @ [\<lparr>summary = [], sentiment = l\<rparr>]"
    by (subst process_article_results_frame) simp
next
  have "results (process_article env url st) \<noteq> results st \<longleftrightarrow>
      results (process_article env url init_state) \<noteq> []"
    by (subst process_article_results_frame) simp
  also have "\<dots> \<longleftrightarrow> \<not> skip_article (extract_article_text env url)
        \<and> chunk_summaries env (chunks (extract_article_text env url)) \<noteq> []
        \<and> (\<exists>l. classify env (sentiment_input
              (join '' '' (chunk_summaries env (chunks (extract_article_text env url))))) = Inr l)"
    by (auto simp: process_article_results Let_def split: sum.splits)
  finally show "results (process_article env url st) \<noteq> results st \<longleftrightarrow>
        \<not> skip_article (extract_article_text env url)
        \<and> chunk_summaries env (chunks (extract_article_text env url)) \<noteq> []
        \<and> (\<exists>l. classify env (sentiment_input
              (join '' '' (chunk_summaries env (chunks (extract_article_text env url))))) = Inr l)" .
next
  show "results (process_article (demo_env (\<lambda>c mx mn. Inr [\<lparr>summary_text = []\<rparr>])) ''u50'' init_state) =
       [\<lparr>summary = [], sentiment = ''neutral''\<rparr>]"
    by (simp add: demo_article_const)
qed

theorem single_empty_summary_appended_witness:
  "\<not> skip_article (extract_article_text (demo_env (\<lambda>c mx mn. Inr [\<lparr>summary_text = []\<rparr>])) ''u50'')
   \<and> chunk_summaries (demo_env (\<lambda>c mx mn. Inr [\<lparr>summary_text = []\<rparr>]))
       (chunks (extract_article_text (demo_env (\<lambda>c mx mn. Inr [\<lparr>summary_text = []\<rparr>])) ''u50'')) = [[]]
   \<and> classify (demo_env (\<lambda>c mx mn. Inr [\<lparr>summary_text = []\<rparr>])) [] = Inr ''neutral''
   \<and> results (process_article (demo_env (\<lambda>c mx mn. Inr [\<lparr>summary_text = []\<rparr>])) ''u50''
        \<lparr>results = [\<lparr>summary = ''earlier'', sentiment = ''positive''\<rparr>], calls = []\<rparr>) =
       [\<lparr>summary = ''earlier'', sentiment = ''positive''\<rparr>, \<lparr>summary = [], sentiment = ''neutral''\<rparr>]"
proof -
  let ?D = "demo_env (\<lambda>c mx mn. Inr [\<lparr>summary_text = []\<rparr>])"
  let ?st = "\<lparr>results = [\<lparr>summary = ''earlier'', sentiment = ''positive''\<rparr>], calls = []\<rparr>"
  have a: "\<not> skip_article (extract_article_text ?D ''u50'')"
    by (simp add: demo_extract demo_not_skipped)
  have b: "chunk_summaries ?D (chunks (extract_article_text ?D ''u50'')) = [[]]"
    by (simp add: demo_extract demo_chunks chunk_summaries_def demo_chunk_outcome_const)
  have c: "classify ?D [] = Inr ''neutral''"
    by (rule demo_classify)
  have "results (process_article ?D ''u50'' ?st) = results ?st @ [\<lparr>summary = [], sentiment = ''neutral''\<rparr>]"
    using single_empty_summary_appended [of ?D "''u50''" "''neutral''" ?st] a b c by blast
  then show ?thesis using a b c by simp
qed


end
